theory Spec2Isabelle
  imports Complex_Main "HOL-Library.AList"
begin

section \<open>Values, dictionaries and Python's errors\<close>

text \<open>
  The alerter keeps its state in a Python \<open>dict\<close> that it reads from and writes to
  \<open>dca_state.json\<close>. A value of that dictionary is whatever \<open>json.load\<close> can
  produce. A dictionary is an association list in insertion order; \<open>AList.update\<close>
  overwrites a key in place or appends a new one, as a Python assignment
  \<open>d[k] = v\<close> does. A list with two bindings of one key stands for the dictionary
  with the first of them; \<open>json.load\<close> and the programs produce no such list. Prices
  are Python floats; they are modelled as exact reals, so rounding, overflow,
  infinities and NaN are outside this model.
\<close>

datatype val =
    VNone
  | VBool bool
  | VInt int
  | VFloat real
  | VStr string
  | VList "val list"
  | VDict "(string \<times> val) list"

type_synonym dict = "(string \<times> val) list"

datatype error =
    KeyError string
  | TypeError
  | AttributeError
  | ValueError
  | ZeroDivisionError
  | OSError

text \<open>\<open>d[k]\<close> on a dictionary: the value, or \<open>KeyError\<close>.\<close>

definition py_getitem :: "dict \<Rightarrow> string \<Rightarrow> error + val" where
  "py_getitem d k = (case map_of d k of None \<Rightarrow> Inl (KeyError k) | Some v \<Rightarrow> Inr v)"

text \<open>\<open>t[k]\<close> with a string key on any value: only a dictionary can be subscripted so.\<close>

fun py_subscript :: "val \<Rightarrow> string \<Rightarrow> error + val" where
  "py_subscript (VDict d) k = py_getitem d k"
| "py_subscript _ k = Inl TypeError"

text \<open>\<open>v >= n\<close> for an integer \<open>n\<close>: numbers compare (a bool is an int), anything else raises.\<close>

fun py_ge :: "val \<Rightarrow> int \<Rightarrow> error + bool" where
  "py_ge (VInt i) n = Inr (n \<le> i)"
| "py_ge (VBool b) n = Inr (n \<le> (if b then 1 else 0))"
| "py_ge (VFloat x) n = Inr (of_int n \<le> x)"
| "py_ge _ n = Inl TypeError"

text \<open>\<open>v + 1\<close>, as in \<open>state["trigger_count"] += 1\<close> and \<open>state["trigger_count"] + 1\<close>.\<close>

fun py_add1 :: "val \<Rightarrow> error + val" where
  "py_add1 (VInt i) = Inr (VInt (i + 1))"
| "py_add1 (VBool b) = Inr (VInt ((if b then 1 else 0) + 1))"
| "py_add1 (VFloat x) = Inr (VFloat (x + 1))"
| "py_add1 _ = Inl TypeError"

text \<open>\<open>h.append(x)\<close>: only a list has the method.\<close>

fun py_append :: "val \<Rightarrow> val \<Rightarrow> error + val" where
  "py_append (VList xs) x = Inr (VList (xs @ [x]))"
| "py_append _ x = Inl AttributeError"

text \<open>
  \<open>for t in v\<close>: a list yields its elements, a dictionary its keys, a string its
  characters (each a string); nothing else is iterable.
\<close>

fun py_iter :: "val \<Rightarrow> error + val list" where
  "py_iter (VList xs) = Inr xs"
| "py_iter (VDict d) = Inr (map (\<lambda>kv. VStr (fst kv)) d)"
| "py_iter (VStr s) = Inr (map (\<lambda>c. VStr [c]) s)"
| "py_iter _ = Inl TypeError"

text \<open>
  The format specifications \<open>:,.2f\<close> and \<open>:.2f\<close> of an f-string accept numbers only:
  a string raises \<open>ValueError\<close>, every other value \<open>TypeError\<close>. The rendered text is
  not modelled; the value stands for it.
\<close>

fun py_format_f :: "val \<Rightarrow> error + val" where
  "py_format_f (VInt i) = Inr (VInt i)"
| "py_format_f (VBool b) = Inr (VBool b)"
| "py_format_f (VFloat x) = Inr (VFloat x)"
| "py_format_f (VStr s) = Inl ValueError"
| "py_format_f _ = Inl TypeError"

section \<open>Configuration\<close>

definition MAX_TRIGGERS :: int where
  "MAX_TRIGGERS = 15"

definition INTRADAY_DIP_THRESHOLD :: real where
  "INTRADAY_DIP_THRESHOLD = - 47 / 10"

definition CLOSE_TO_CLOSE_THRESHOLD :: real where
  "CLOSE_TO_CLOSE_THRESHOLD = - 33 / 10"

definition BROKER_EMAIL :: string where
  "BROKER_EMAIL = ''jake@calebandbrown.com''"

definition PERSONAL_EMAIL :: string where
  "PERSONAL_EMAIL = ''lewis@jackson.ventures''"

section \<open>The world: the state file and what the process did\<close>

text \<open>
  The state file is absent, holds text that \<open>json.load\<close> rejects, or holds a JSON
  object. (A document whose top level is not an object is not modelled.)
\<close>

datatype file_content = NoFile | Garbage | Object dict

text \<open>
  A message handed to \<open>send_email\<close>. The HTML and text bodies are not modelled: a
  message records which generator built it and the arguments the generator received.
\<close>

datatype message =
    BrokerOrder val real real real string
  | PersonalAlert val real real real string
  | ManualBrokerOrder val real
  | ManualPersonalAlert val real
  | CompletionSummary "(val \<times> val \<times> val \<times> val) list"

text \<open>
  What the process did, in order: a write of the state file that succeeded, a write
  that failed, a call of \<open>send_email\<close>. The callers ignore what \<open>send_email\<close>
  returns, so an event records the attempt, not the delivery.
\<close>

datatype event =
    Saved dict
  | SaveFailed dict
  | Send string message

record world =
  state_file :: file_content
  events :: "event list"

text \<open>
  What one cycle reads from outside: the UTC clock (as the date and the ISO timestamp
  the code formats), the three Binance fetches (\<open>None\<close> where the fetch function
  returns \<open>None\<close>), whether the write of the refreshed reference close and the write
  of the trigger succeed, and the text the code formats for the trigger type. One
  cycle reads one date: a cycle that runs across midnight is not modelled.
\<close>

datatype trigger_class = IntradayDip | CloseToClose

record env =
  today :: string
  now_iso :: string
  daily_close :: "(real \<times> string) option"
  btc_price :: "real option"
  today_close :: "real option"
  refresh_write_ok :: bool
  trigger_write_ok :: bool
  type_text :: "trigger_class \<Rightarrow> real \<Rightarrow> string"

section \<open>State management (main.py)\<close>

definition default_state :: dict where
  "default_state =
     [(''trigger_count'', VInt 0),
      (''last_trigger_date'', VNone),
      (''yesterday_close'', VNone),
      (''yesterday_close_date'', VNone),
      (''trigger_history'', VList [])]"

text \<open>
  The loop \<open>for key in default_state: if key not in state: state[key] = default_state[key]\<close>.
\<close>

fun merge_defaults :: "dict \<Rightarrow> dict \<Rightarrow> dict" where
  "merge_defaults [] state = state"
| "merge_defaults ((key, v) # rest) state =
     merge_defaults rest (if map_of state key = None then AList.update key v state else state)"

text \<open>
  \<open>load_state\<close> of main.py: the file's object merged with the defaults; the defaults
  when the file is absent or when reading it raises (the exception is logged).
\<close>

definition load_state :: "world \<Rightarrow> dict" where
  "load_state w =
     (case state_file w of
        Object state \<Rightarrow> merge_defaults default_state state
      | _ \<Rightarrow> default_state)"

text \<open>
  \<open>save_state\<close> of main.py: a failed write is caught and logged, and the caller goes on.
\<close>

definition save_state :: "bool \<Rightarrow> dict \<Rightarrow> world \<Rightarrow> world" where
  "save_state ok state w =
     (if ok then w\<lparr>state_file := Object state, events := events w @ [Saved state]\<rparr>
      else w\<lparr>events := events w @ [SaveFailed state]\<rparr>)"

definition send_email :: "string \<Rightarrow> message \<Rightarrow> world \<Rightarrow> world" where
  "send_email to_email msg w = w\<lparr>events := events w @ [Send to_email msg]\<rparr>"

section \<open>Trigger logic (main.py)\<close>

text \<open>
  One pass of the loop of \<open>send_completion_email\<close>: the f-string reads and formats
  \<open>t['number']\<close>, \<open>t['date']\<close>, \<open>t['price']\<close> and \<open>t['drop_pct']\<close>, in this order.
\<close>

definition history_row :: "val \<Rightarrow> error + (val \<times> val \<times> val \<times> val)" where
  "history_row t =
     (case py_subscript t ''number'' of Inl err \<Rightarrow> Inl err | Inr n \<Rightarrow>
      (case py_subscript t ''date'' of Inl err \<Rightarrow> Inl err | Inr d \<Rightarrow>
      (case py_subscript t ''price'' of Inl err \<Rightarrow> Inl err | Inr p \<Rightarrow>
      (case py_format_f p of Inl err \<Rightarrow> Inl err | Inr p' \<Rightarrow>
      (case py_subscript t ''drop_pct'' of Inl err \<Rightarrow> Inl err | Inr x \<Rightarrow>
      (case py_format_f x of Inl err \<Rightarrow> Inl err | Inr x' \<Rightarrow>
      Inr (n, d, p', x')))))))"

fun history_rows :: "val list \<Rightarrow> error + (val \<times> val \<times> val \<times> val) list" where
  "history_rows [] = Inr []"
| "history_rows (t # ts) =
     (case history_row t of Inl err \<Rightarrow> Inl err | Inr r \<Rightarrow>
      (case history_rows ts of Inl err \<Rightarrow> Inl err | Inr rs \<Rightarrow> Inr (r # rs)))"

definition send_completion_email :: "world \<Rightarrow> (error + unit) \<times> world" where
  "send_completion_email w =
     (let state = load_state w in
      case py_getitem state ''trigger_history'' of Inl err \<Rightarrow> (Inl err, w) | Inr h \<Rightarrow>
      (case py_iter h of Inl err \<Rightarrow> (Inl err, w) | Inr ts \<Rightarrow>
      (case history_rows ts of Inl err \<Rightarrow> (Inl err, w) | Inr rows \<Rightarrow>
      (Inr (), send_email PERSONAL_EMAIL (CompletionSummary rows) w))))"

text \<open>
  \<open>execute_trigger\<close>: increment the count, set the date, append the record, save, send
  the broker and the personal email, and the completion email after the last trigger.
  An exception before the save leaves the world as it was: the dictionary changed so
  far is the caller's local variable.
\<close>

definition execute_trigger ::
  "env \<Rightarrow> dict \<Rightarrow> real \<Rightarrow> real \<Rightarrow> real \<Rightarrow> string \<Rightarrow> world \<Rightarrow> (error + unit) \<times> world" where
  "execute_trigger e state current_price yesterday_close drop_pct trigger_type w =
     (case py_getitem state ''trigger_count'' of Inl err \<Rightarrow> (Inl err, w) | Inr c \<Rightarrow>
      (case py_add1 c of Inl err \<Rightarrow> (Inl err, w) | Inr trigger_number \<Rightarrow>
      let state1 = AList.update ''trigger_count'' trigger_number state;
          state2 = AList.update ''last_trigger_date'' (VStr (today e)) state1;
          trigger_record =
            [(''number'', trigger_number),
             (''date'', VStr (today e)),
             (''time'', VStr (now_iso e)),
             (''price'', VFloat current_price),
             (''yesterday_close'', VFloat yesterday_close),
             (''drop_pct'', VFloat drop_pct),
             (''type'', VStr trigger_type)]
      in
      (case py_getitem state2 ''trigger_history'' of Inl err \<Rightarrow> (Inl err, w) | Inr h \<Rightarrow>
      (case py_append h (VDict trigger_record) of Inl err \<Rightarrow> (Inl err, w) | Inr h' \<Rightarrow>
      let state3 = AList.update ''trigger_history'' h' state2;
          w1 = save_state (trigger_write_ok e) state3 w;
          w2 = send_email BROKER_EMAIL
                 (BrokerOrder trigger_number current_price yesterday_close drop_pct trigger_type) w1;
          w3 = send_email PERSONAL_EMAIL
                 (PersonalAlert trigger_number current_price yesterday_close drop_pct trigger_type) w2
      in
      (case py_ge trigger_number MAX_TRIGGERS of Inl err \<Rightarrow> (Inl err, w3) | Inr done_all \<Rightarrow>
      if done_all then send_completion_email w3 else (Inr (), w3))))))"

text \<open>
  \<open>((price - yesterday_close) / yesterday_close) * 100\<close>; Python raises on a float
  division by zero.
\<close>

definition drop_percent :: "real \<Rightarrow> real \<Rightarrow> error + real" where
  "drop_percent price yesterday_close =
     (if yesterday_close = 0 then Inl ZeroDivisionError
      else Inr (((price - yesterday_close) / yesterday_close) * 100))"

text \<open>
  Both checks return \<open>None\<close> on every path. The model returns the name of the path
  taken instead.
\<close>

datatype outcome =
    Complete
  | AlreadyFiredToday
  | MissingReference
  | MissingPrice
  | NotTriggered
  | Fired

definition check_and_trigger :: "env \<Rightarrow> world \<Rightarrow> (error + outcome) \<times> world" where
  "check_and_trigger e w =
     (let state = load_state w in
      case py_getitem state ''trigger_count'' of Inl err \<Rightarrow> (Inl err, w) | Inr c \<Rightarrow>
      (case py_ge c MAX_TRIGGERS of Inl err \<Rightarrow> (Inl err, w) | Inr maxed \<Rightarrow>
      if maxed then (Inr Complete, w) else
      (case py_getitem state ''last_trigger_date'' of Inl err \<Rightarrow> (Inl err, w) | Inr last_date \<Rightarrow>
      if last_date = VStr (today e) then (Inr AlreadyFiredToday, w) else
      (case daily_close e of None \<Rightarrow> (Inr MissingReference, w)
      | Some (yesterday_close, yesterday_date) \<Rightarrow>
      (case py_getitem state ''yesterday_close_date'' of Inl err \<Rightarrow> (Inl err, w) | Inr ycd \<Rightarrow>
      let state' =
            (if ycd \<noteq> VStr yesterday_date
             then AList.update ''yesterday_close_date'' (VStr yesterday_date)
                    (AList.update ''yesterday_close'' (VFloat yesterday_close) state)
             else state);
          w' = (if ycd \<noteq> VStr yesterday_date then save_state (refresh_write_ok e) state' w else w)
      in
      (case btc_price e of None \<Rightarrow> (Inr MissingPrice, w') | Some current_price \<Rightarrow>
      (case drop_percent current_price yesterday_close of Inl err \<Rightarrow> (Inl err, w')
      | Inr drop_pct \<Rightarrow>
      if drop_pct \<le> INTRADAY_DIP_THRESHOLD then
        (case execute_trigger e state' current_price yesterday_close drop_pct
                (type_text e IntradayDip drop_pct) w' of
           (Inl err, w'') \<Rightarrow> (Inl err, w'')
         | (Inr u, w'') \<Rightarrow> (Inr Fired, w''))
      else (Inr NotTriggered, w'))))))))"

definition check_daily_close :: "env \<Rightarrow> world \<Rightarrow> (error + outcome) \<times> world" where
  "check_daily_close e w =
     (let state = load_state w in
      case py_getitem state ''trigger_count'' of Inl err \<Rightarrow> (Inl err, w) | Inr c \<Rightarrow>
      (case py_ge c MAX_TRIGGERS of Inl err \<Rightarrow> (Inl err, w) | Inr maxed \<Rightarrow>
      if maxed then (Inr Complete, w) else
      (case py_getitem state ''last_trigger_date'' of Inl err \<Rightarrow> (Inl err, w) | Inr last_date \<Rightarrow>
      if last_date = VStr (today e) then (Inr AlreadyFiredToday, w) else
      (case today_close e of None \<Rightarrow> (Inr MissingPrice, w) | Some close_price \<Rightarrow>
      (case daily_close e of None \<Rightarrow> (Inr MissingReference, w)
      | Some (yesterday_close, yesterday_date) \<Rightarrow>
      (case drop_percent close_price yesterday_close of Inl err \<Rightarrow> (Inl err, w)
      | Inr drop_pct \<Rightarrow>
      if drop_pct \<le> CLOSE_TO_CLOSE_THRESHOLD then
        (case execute_trigger e state close_price yesterday_close drop_pct
                (type_text e CloseToClose drop_pct) w of
           (Inl err, w') \<Rightarrow> (Inl err, w')
         | (Inr u, w') \<Rightarrow> (Inr Fired, w'))
      else (Inr NotTriggered, w)))))))"

section \<open>The manual trigger script (trigger_now.py)\<close>

text \<open>
  \<open>load_state\<close> of trigger_now.py returns what \<open>json.load\<close> read, as it is.
\<close>

definition tn_load_state :: "world \<Rightarrow> dict" where
  "tn_load_state w =
     (case state_file w of
        Object state \<Rightarrow> state
      | _ \<Rightarrow> default_state)"

text \<open>\<open>save_state\<close> of trigger_now.py does not catch a failed write.\<close>

definition tn_save_state :: "bool \<Rightarrow> dict \<Rightarrow> world \<Rightarrow> (error + unit) \<times> world" where
  "tn_save_state ok state w =
     (if ok then (Inr (), w\<lparr>state_file := Object state, events := events w @ [Saved state]\<rparr>)
      else (Inl OSError, w\<lparr>events := events w @ [SaveFailed state]\<rparr>))"

text \<open>\<open>get_btc_price\<close> of trigger_now.py falls back to a fixed price.\<close>

definition get_btc_price :: "env \<Rightarrow> real" where
  "get_btc_price e = (case btc_price e of None \<Rightarrow> 97000 | Some p \<Rightarrow> p)"

text \<open>The script's main block.\<close>

definition tn_main :: "env \<Rightarrow> world \<Rightarrow> (error + unit) \<times> world" where
  "tn_main e w =
     (let state = tn_load_state w in
      case py_getitem state ''trigger_count'' of Inl err \<Rightarrow> (Inl err, w) | Inr c \<Rightarrow>
      (case py_add1 c of Inl err \<Rightarrow> (Inl err, w) | Inr current_trigger \<Rightarrow>
      let price = get_btc_price e;
          w1 = send_email BROKER_EMAIL (ManualBrokerOrder current_trigger price) w;
          w2 = send_email PERSONAL_EMAIL (ManualPersonalAlert current_trigger price) w1;
          state1 = AList.update ''trigger_count'' current_trigger state;
          state2 = AList.update ''last_trigger_date'' (VStr (today e)) state1
      in
      (case py_getitem state2 ''trigger_history'' of Inl err \<Rightarrow> (Inl err, w2) | Inr h \<Rightarrow>
      (case py_append h
             (VDict [(''number'', current_trigger),
                     (''date'', VStr (today e)),
                     (''time'', VStr (now_iso e)),
                     (''price'', VFloat price),
                     (''type'', VStr ''Manual trigger'')]) of
        Inl err \<Rightarrow> (Inl err, w2)
      | Inr h' \<Rightarrow> tn_save_state (trigger_write_ok e) (AList.update ''trigger_history'' h' state2) w2))))"

section \<open>Notions used in the statements\<close>

text \<open>
  The record \<open>execute_trigger\<close> appends, the state it builds before saving, and the
  state \<open>check_and_trigger\<close> builds when it refreshes the reference close.
\<close>

definition new_record :: "env \<Rightarrow> val \<Rightarrow> real \<Rightarrow> real \<Rightarrow> real \<Rightarrow> string \<Rightarrow> val" where
  "new_record e trigger_number current_price yesterday_close drop_pct trigger_type =
     VDict [(''number'', trigger_number),
            (''date'', VStr (today e)),
            (''time'', VStr (now_iso e)),
            (''price'', VFloat current_price),
            (''yesterday_close'', VFloat yesterday_close),
            (''drop_pct'', VFloat drop_pct),
            (''type'', VStr trigger_type)]"

definition fired_state :: "env \<Rightarrow> dict \<Rightarrow> val \<Rightarrow> val list \<Rightarrow> val \<Rightarrow> dict" where
  "fired_state e state trigger_number h r =
     AList.update ''trigger_history'' (VList (h @ [r]))
       (AList.update ''last_trigger_date'' (VStr (today e))
          (AList.update ''trigger_count'' trigger_number state))"

definition refreshed_state :: "real \<Rightarrow> string \<Rightarrow> dict \<Rightarrow> dict" where
  "refreshed_state yesterday_close yesterday_date state =
     AList.update ''yesterday_close_date'' (VStr yesterday_date)
       (AList.update ''yesterday_close'' (VFloat yesterday_close) state)"

text \<open>The event a write of the state leaves behind.\<close>

definition save_event :: "bool \<Rightarrow> dict \<Rightarrow> event" where
  "save_event ok state = (if ok then Saved state else SaveFailed state)"

text \<open>The trigger records of the persisted state, as \<open>load_state\<close> reads them.\<close>

definition history_of :: "world \<Rightarrow> val list" where
  "history_of w =
     (case py_getitem (load_state w) ''trigger_history'' of
        Inr (VList h) \<Rightarrow> h
      | _ \<Rightarrow> [])"


text \<open>
  The scheduler of \<open>main\<close> runs \<open>check_and_trigger\<close> every minute and
  \<open>check_daily_close\<close> once a day, one call after the other. A run is the list of
  these calls, each with what it reads from outside. A call that raises ends the
  process; the next call of the list is then the first of the restarted process.
\<close>

datatype cycle = Intraday env | DailyClose env

fun cycle_env :: "cycle \<Rightarrow> env" where
  "cycle_env (Intraday e) = e"
| "cycle_env (DailyClose e) = e"

fun run_cycle :: "cycle \<Rightarrow> world \<Rightarrow> (error + outcome) \<times> world" where
  "run_cycle (Intraday e) w = check_and_trigger e w"
| "run_cycle (DailyClose e) w = check_daily_close e w"

fun run_cycles :: "cycle list \<Rightarrow> world \<Rightarrow> world" where
  "run_cycles [] w = w"
| "run_cycles (c # cs) w = run_cycles cs (snd (run_cycle c w))"

text \<open>The messages handed to \<open>send_email\<close>, oldest first, each with its recipient.\<close>

fun sent_of :: "event \<Rightarrow> (string \<times> message) list" where
  "sent_of (Send to_email msg) = [(to_email, msg)]"
| "sent_of _ = []"

definition sent :: "world \<Rightarrow> (string \<times> message) list" where
  "sent w = concat (map sent_of (events w))"

text \<open>
  The record the manual trigger script appends, and the two shapes of record the two
  programs write: that of the script and that of \<open>execute_trigger\<close>.
\<close>

definition manual_record :: "env \<Rightarrow> val \<Rightarrow> val" where
  "manual_record e current_trigger =
     VDict [(''number'', current_trigger),
            (''date'', VStr (today e)),
            (''time'', VStr (now_iso e)),
            (''price'', VFloat (get_btc_price e)),
            (''type'', VStr ''Manual trigger'')]"

fun is_float :: "val option \<Rightarrow> bool" where
  "is_float (Some (VFloat x)) = True"
| "is_float _ = False"

fun is_manual_record :: "val \<Rightarrow> bool" where
  "is_manual_record (VDict d) =
     (map fst d = [''number'', ''date'', ''time'', ''price'', ''type'']
      \<and> is_float (map_of d ''price''))"
| "is_manual_record _ = False"

fun is_trigger_record :: "val \<Rightarrow> bool" where
  "is_trigger_record (VDict d) =
     (map fst d =
        [''number'', ''date'', ''time'', ''price'', ''yesterday_close'', ''drop_pct'', ''type'']
      \<and> is_float (map_of d ''price'') \<and> is_float (map_of d ''drop_pct''))"
| "is_trigger_record _ = False"

definition is_script_record :: "val \<Rightarrow> bool" where
  "is_script_record t \<longleftrightarrow> is_manual_record t \<or> is_trigger_record t"

text \<open>The manual trigger script run \<open>k\<close> times in a row.\<close>

fun manual_runs :: "env \<Rightarrow> nat \<Rightarrow> world \<Rightarrow> world" where
  "manual_runs e 0 w = w"
| "manual_runs e (Suc k) w = snd (tn_main e (manual_runs e k w))"

text \<open>
  A state in which \<open>trigger_count == len(trigger_history)\<close>; an event that is not a
  successful write of a state for which this fails.
\<close>

fun counts_match :: "error + val \<Rightarrow> error + val \<Rightarrow> bool" where
  "counts_match (Inr (VInt n)) (Inr (VList h)) = (n = int (length h))"
| "counts_match _ _ = False"

definition consistent :: "dict \<Rightarrow> bool" where
  "consistent st =
     counts_match (py_getitem st ''trigger_count'') (py_getitem st ''trigger_history'')"

fun saved_consistent :: "event \<Rightarrow> bool" where
  "saved_consistent (Saved st) = consistent st"
| "saved_consistent _ = True"

text \<open>
  The number of cycles of a run that executed a trigger and persisted it: the cycle
  returned on the path "fired" and its write of the trigger succeeded.
\<close>

fun successes :: "cycle list \<Rightarrow> world \<Rightarrow> nat" where
  "successes [] w = 0"
| "successes (c # cs) w =
     (if fst (run_cycle c w) = Inr Fired \<and> trigger_write_ok (cycle_env c) then 1 else 0)
     + successes cs (snd (run_cycle c w))"

text \<open>
  The persisted state after \<open>N\<close> persisted triggers of main.py, with every write so
  far consistent.
\<close>

definition well_formed :: "nat \<Rightarrow> world \<Rightarrow> bool" where
  "well_formed N w \<longleftrightarrow>
     (\<exists>h. py_getitem (load_state w) ''trigger_count'' = Inr (VInt (int N))
         \<and> py_getitem (load_state w) ''trigger_history'' = Inr (VList h)
         \<and> length h = N
         \<and> map (\<lambda>r. py_subscript r ''number'') h = map (\<lambda>i. Inr (VInt (int i))) [1..<Suc N]
         \<and> list_all is_trigger_record h)
     \<and> list_all saved_consistent (events w)"

text \<open>
  Python's floats are IEEE 754 binary64 numbers, and every arithmetic operation
  rounds its exact result to the nearest of them, ties to the even mantissa. For a
  value in the normal range this is: scale by the power of two that puts the value
  between 2 to the power 52 and 2 to the power 53, round to the nearest integer,
  scale back. Overflow and subnormal numbers are left out. \<open>float_drop\<close> is the
  drop as Python computes it from two floats, one rounding for each of the three
  operations.
\<close>

definition rne :: "real \<Rightarrow> int" where
  "rne y =
     (let f = \<lfloor>y\<rfloor>; r = y - of_int f
      in if r < 1 / 2 then f else if 1 / 2 < r then f + 1 else if even f then f else f + 1)"

definition binade :: "real \<Rightarrow> int" where
  "binade x = \<lfloor>log 2 \<bar>x\<bar>\<rfloor>"

definition binary64 :: "real \<Rightarrow> real" where
  "binary64 x =
     (if x = 0 then 0
      else of_int (rne (x / 2 powi (binade x - 52))) * 2 powi (binade x - 52))"

definition float_drop :: "real \<Rightarrow> real \<Rightarrow> real" where
  "float_drop price yesterday_close =
     binary64 (binary64 (binary64 (price - yesterday_close) / yesterday_close) * 100)"

section \<open>Concrete inputs\<close>

text \<open>
  A day on which the price has fallen by ten percent since yesterday's close; a world
  with no state file; a state file that records fifteen triggers, the last of them on
  that day; and one that records three.
\<close>

definition env_drop10 :: env where
  "env_drop10 =
     \<lparr>today = ''2024-05-01'', now_iso = ''2024-05-01T10:00:00+00:00'',
      daily_close = Some (100, ''2024-04-30''), btc_price = Some 90,
      today_close = Some 90, refresh_write_ok = True, trigger_write_ok = True,
      type_text = (\<lambda>c d. ''dip'')\<rparr>"

definition world_fresh :: world where
  "world_fresh = \<lparr>state_file = NoFile, events = []\<rparr>"

definition world_complete :: world where
  "world_complete =
     \<lparr>state_file =
        Object [(''trigger_count'', VInt 15), (''last_trigger_date'', VStr ''2024-05-01'')],
      events = []\<rparr>"





text \<open>A state file of an older schema, which has the count only.\<close>

definition world_partial :: world where
  "world_partial = \<lparr>state_file = Object [(''trigger_count'', VInt 2)], events = []\<rparr>"

section \<open>Reading the state\<close>

lemma map_of_merge_defaults:
  "map_of (merge_defaults ds st) k =
     (case map_of st k of Some v \<Rightarrow> Some v | None \<Rightarrow> map_of ds k)"
proof (induction ds arbitrary: st)
  case Nil
  then show ?case by (simp split: option.splits)
next
  case (Cons a ds)
  obtain key v where a: "a = (key, v)" by (cases a)
  show ?case
    by (simp add: a Cons.IH update_conv' split: option.splits)
qed

lemma getitem_load_state_Object:
  "state_file w = Object st \<Longrightarrow>
   py_getitem (load_state w) k =
     (case map_of st k of Some v \<Rightarrow> Inr v | None \<Rightarrow> py_getitem default_state k)"
  by (simp add: py_getitem_def load_state_def map_of_merge_defaults split: option.splits)

section \<open>What a trigger and a cycle do to the world\<close>

lemma completion_file [simp]: "state_file (snd (send_completion_email w)) = state_file w"
  by (simp add: send_completion_email_def send_email_def Let_def split: sum.splits)



lemma getitem_update_same [simp]: "py_getitem (AList.update k v d) k = Inr v"
  by (simp add: py_getitem_def update_conv')

lemma getitem_update_other [simp]: "k' \<noteq> k \<Longrightarrow> py_getitem (AList.update k v d) k' = py_getitem d k'"
  by (simp add: py_getitem_def update_conv')



lemma execute_trigger_abort:
  assumes "py_getitem st ''trigger_count'' = Inl err \<or> (\<exists>c. py_getitem st ''trigger_count'' = Inr c \<and> py_add1 c = Inl err)
           \<or> py_getitem st ''trigger_history'' = Inl err"
  shows "snd (execute_trigger e st p y d t w) = w"
  using assms
  by (auto simp add: execute_trigger_def Let_def split: sum.splits)


lemma load_state_has_key:
  "map_of default_state k = Some v0 \<Longrightarrow> \<exists>v. map_of (load_state w) k = Some v"
  by (cases "state_file w")
     (auto simp add: load_state_def map_of_merge_defaults split: option.splits)

lemma load_state_history: "\<exists>v. py_getitem (load_state w) ''trigger_history'' = Inr v"
  using load_state_has_key [of "''trigger_history''" "VList []" w]
  by (auto simp add: default_state_def py_getitem_def)

lemma getitem_load_Object_present:
  assumes a: "state_file w = Object st" and b: "py_getitem st k = Inr v"
  shows "py_getitem (load_state w) k = Inr v"
proof -
  have "map_of st k = Some v"
    using b by (simp add: py_getitem_def split: option.splits)
  then show ?thesis
    using getitem_load_state_Object [OF a, of k] by simp
qed

lemma history_of_Object:
  "state_file w = Object st \<Longrightarrow> py_getitem st ''trigger_history'' = Inr v \<Longrightarrow>
   history_of w = (case v of VList h \<Rightarrow> h | _ \<Rightarrow> [])"
  by (simp add: history_of_def getitem_load_Object_present split: val.splits)

lemma getitem_refreshed:
  "k \<noteq> ''yesterday_close'' \<Longrightarrow> k \<noteq> ''yesterday_close_date'' \<Longrightarrow>
   py_getitem (refreshed_state y yd st) k = py_getitem st k"
  by (simp add: refreshed_state_def)

lemma getitem_fired:
  "py_getitem (fired_state e st tn h r) ''trigger_history'' = Inr (VList (h @ [r]))"
  "py_getitem (fired_state e st tn h r) ''last_trigger_date'' = Inr (VStr (today e))"
  "py_getitem (fired_state e st tn h r) ''trigger_count'' = Inr tn"
  by (simp_all add: fired_state_def)



lemma snd_case_pair_sum [simp]:
  "snd (case x of (Inl err, w) \<Rightarrow> (Inl err, w) | (Inr u, w) \<Rightarrow> (Inr c, w)) = snd x"
  by (cases x) (auto split: sum.splits)






lemma load_state_cong: "state_file w' = state_file w \<Longrightarrow> load_state w' = load_state w"
  by (simp add: load_state_def)

lemma history_of_cong: "state_file w' = state_file w \<Longrightarrow> history_of w' = history_of w"
  using load_state_cong [of w' w] by (simp add: history_of_def)



lemma history_of_refreshed:
  assumes "state_file w' = Object (refreshed_state y yd (load_state w))"
  shows "history_of w' = history_of w"
proof -
  obtain v where v: "py_getitem (load_state w) ''trigger_history'' = Inr v"
    using load_state_history by blast
  then have "py_getitem (refreshed_state y yd (load_state w)) ''trigger_history'' = Inr v"
    by (simp add: getitem_refreshed)
  from history_of_Object [OF assms this] v show ?thesis
    by (simp add: history_of_def)
qed




section \<open>The intraday check past its guards\<close>


lemma sent_save_state [simp]: "sent (save_state ok st w) = sent w"
  by (simp add: sent_def save_state_def)

lemma sent_of_save_event [simp]: "sent_of (save_event ok st) = []"
  by (simp add: save_event_def)


lemma load_state_ycd: "\<exists>v. py_getitem (load_state w) ''yesterday_close_date'' = Inr v"
  using load_state_has_key [of "''yesterday_close_date''" VNone w]
  by (auto simp add: default_state_def py_getitem_def)

text \<open>The state and the world of \<open>check_and_trigger\<close> after the refresh of the reference close.\<close>

lemma intraday_after_refresh:
  assumes c: "py_getitem (load_state w) ''trigger_count'' = Inr (VInt n)" "n < MAX_TRIGGERS"
    and l: "py_getitem (load_state w) ''last_trigger_date'' = Inr ld" "ld \<noteq> VStr (today e)"
    and dc: "daily_close e = Some (y, yd)" and bp: "btc_price e = Some p"
  shows "\<exists>st' w'.
           (st' = load_state w \<or> st' = refreshed_state y yd (load_state w))
         \<and> (w' = w \<or> w' = save_state (refresh_write_ok e) (refreshed_state y yd (load_state w)) w)
         \<and> sent w' = sent w
         \<and> history_of w' = history_of w
         \<and> check_and_trigger e w =
             (case drop_percent p y of
                Inl err \<Rightarrow> (Inl err, w')
              | Inr drop_pct \<Rightarrow>
                  if drop_pct \<le> INTRADAY_DIP_THRESHOLD then
                    (case execute_trigger e st' p y drop_pct (type_text e IntradayDip drop_pct) w' of
                       (Inl err, w'') \<Rightarrow> (Inl err, w'')
                     | (Inr u, w'') \<Rightarrow> (Inr Fired, w''))
                  else (Inr NotTriggered, w'))"
proof -
  obtain ycd where ycd: "py_getitem (load_state w) ''yesterday_close_date'' = Inr ycd"
    using load_state_ycd by blast
  show ?thesis
  proof (cases "ycd = VStr yd")
    case True
    have "check_and_trigger e w =
             (case drop_percent p y of
                Inl err \<Rightarrow> (Inl err, w)
              | Inr drop_pct \<Rightarrow>
                  if drop_pct \<le> INTRADAY_DIP_THRESHOLD then
                    (case execute_trigger e (load_state w) p y drop_pct
                            (type_text e IntradayDip drop_pct) w of
                       (Inl err, w'') \<Rightarrow> (Inl err, w'')
                     | (Inr u, w'') \<Rightarrow> (Inr Fired, w''))
                  else (Inr NotTriggered, w))"
      using c l dc bp ycd True by (simp add: check_and_trigger_def Let_def)
    then show ?thesis by blast
  next
    case False
    let ?st = "refreshed_state y yd (load_state w)"
    let ?w = "save_state (refresh_write_ok e) ?st w"
    have eq: "check_and_trigger e w =
             (case drop_percent p y of
                Inl err \<Rightarrow> (Inl err, ?w)
              | Inr drop_pct \<Rightarrow>
                  if drop_pct \<le> INTRADAY_DIP_THRESHOLD then
                    (case execute_trigger e ?st p y drop_pct
                            (type_text e IntradayDip drop_pct) ?w of
                       (Inl err, w'') \<Rightarrow> (Inl err, w'')
                     | (Inr u, w'') \<Rightarrow> (Inr Fired, w''))
                  else (Inr NotTriggered, ?w))"
      using c l dc bp ycd False
      unfolding refreshed_state_def
      by (simp add: check_and_trigger_def Let_def)
    have h: "history_of ?w = history_of w"
    proof (cases "refresh_write_ok e")
      case True
      then have "state_file ?w = Object ?st" by (simp add: save_state_def)
      then show ?thesis by (rule history_of_refreshed)
    next
      case False
      then have "state_file ?w = state_file w" by (simp add: save_state_def)
      then show ?thesis by (rule history_of_cong)
    qed
    have s: "sent ?w = sent w" by simp
    show ?thesis using eq h s by blast
  qed
qed






section \<open>The completion summary and the records of the manual script\<close>

lemma keys5:
  assumes "map fst d = [k1, k2, k3, k4, k5]"
  shows "\<exists>v1 v2 v3 v4 v5. d = [(k1, v1), (k2, v2), (k3, v3), (k4, v4), (k5, v5)]"
  using assms by (auto simp add: map_eq_Cons_conv)

lemma keys7:
  assumes "map fst d = [k1, k2, k3, k4, k5, k6, k7]"
  shows "\<exists>v1 v2 v3 v4 v5 v6 v7.
           d = [(k1, v1), (k2, v2), (k3, v3), (k4, v4), (k5, v5), (k6, v6), (k7, v7)]"
  using assms by (auto simp add: map_eq_Cons_conv)

lemma is_float_Some: "is_float x \<Longrightarrow> \<exists>r. x = Some (VFloat r)"
  by (cases x rule: is_float.cases) simp_all

lemma history_row_manual:
  assumes "is_manual_record t"
  shows "history_row t = Inl (KeyError ''drop_pct'')"
proof -
  obtain d where t: "t = VDict d"
    using assms by (cases t) simp_all
  have k: "map fst d = [''number'', ''date'', ''time'', ''price'', ''type'']"
    and f: "is_float (map_of d ''price'')"
    using assms t by simp_all
  obtain v1 v2 v3 v4 v5 where
    d: "d = [(''number'', v1), (''date'', v2), (''time'', v3), (''price'', v4), (''type'', v5)]"
    using keys5 [OF k] by blast
  obtain r where "v4 = VFloat r"
    using is_float_Some [OF f] d by auto
  then show ?thesis
    by (simp add: t d history_row_def py_getitem_def)
qed

lemma history_row_trigger:
  assumes "is_trigger_record t"
  shows "\<exists>row. history_row t = Inr row"
proof -
  obtain d where t: "t = VDict d"
    using assms by (cases t) simp_all
  have k: "map fst d =
      [''number'', ''date'', ''time'', ''price'', ''yesterday_close'', ''drop_pct'', ''type'']"
    and f: "is_float (map_of d ''price'')" and g: "is_float (map_of d ''drop_pct'')"
    using assms t by simp_all
  obtain v1 v2 v3 v4 v5 v6 v7 where
    d: "d = [(''number'', v1), (''date'', v2), (''time'', v3), (''price'', v4),
             (''yesterday_close'', v5), (''drop_pct'', v6), (''type'', v7)]"
    using keys7 [OF k] by blast
  obtain r where r: "v4 = VFloat r"
    using is_float_Some [OF f] d by auto
  obtain s where s: "v6 = VFloat s"
    using is_float_Some [OF g] d by auto
  show ?thesis
    by (simp add: t d r s history_row_def py_getitem_def)
qed

lemma history_row_no_drop:
  assumes "py_subscript t ''drop_pct'' = Inl err"
  shows "\<exists>err'. history_row t = Inl err'"
  using assms by (auto simp add: history_row_def split: sum.splits)

lemma history_rows_fail:
  assumes "t \<in> set ts" and "\<exists>err. history_row t = Inl err"
  shows "\<exists>err. history_rows ts = Inl err"
  using assms
proof (induction ts)
  case Nil
  then show ?case by simp
next
  case (Cons a ts)
  show ?case
  proof (cases "history_row a")
    case (Inl err)
    then show ?thesis by simp
  next
    case (Inr row)
    then have "t \<in> set ts" using Cons.prems by auto
    then obtain err where "history_rows ts = Inl err"
      using Cons.IH Cons.prems(2) by blast
    then show ?thesis using Inr by simp
  qed
qed

lemma history_rows_script:
  assumes "list_all is_script_record ts"
  shows "(\<exists>t\<in>set ts. is_manual_record t) \<longrightarrow> history_rows ts = Inl (KeyError ''drop_pct'')"
    and "\<not> (\<exists>t\<in>set ts. is_manual_record t) \<longrightarrow> (\<exists>rows. history_rows ts = Inr rows)"
  using assms
proof (induction ts)
  case Nil
  {
    case 1
    then show ?case by simp
  next
    case 2
    then show ?case by simp
  }
next
  case (Cons a ts)
  {
    case 1
    have tl: "list_all is_script_record ts" using 1 by simp
    show ?case
    proof (cases "is_manual_record a")
      case True
      then show ?thesis by (simp add: history_row_manual)
    next
      case False
      then have "is_trigger_record a"
        using 1 by (simp add: is_script_record_def)
      then obtain row where row: "history_row a = Inr row"
        using history_row_trigger by blast
      show ?thesis
        using Cons.IH(1) [OF tl] False row
        by (auto split: sum.splits)
    qed
  next
    case 2
    have tl: "list_all is_script_record ts" using 2 by simp
    show ?case
    proof (intro impI)
      assume none: "\<not> (\<exists>t\<in>set (a # ts). is_manual_record t)"
      then have "is_trigger_record a"
        using 2 by (simp add: is_script_record_def)
      then obtain row where row: "history_row a = Inr row"
        using history_row_trigger by blast
      obtain rows where "history_rows ts = Inr rows"
        using Cons.IH(2) [OF tl] none by auto
      then show "\<exists>rows. history_rows (a # ts) = Inr rows"
        using row by simp
    qed
  }
qed

lemma completion_fails:
  assumes "py_getitem (load_state w) ''trigger_history'' = Inr (VList ts)"
    and "history_rows ts = Inl err"
  shows "send_completion_email w = (Inl err, w)"
  using assms by (simp add: send_completion_email_def)

lemma completion_succeeds:
  assumes "py_getitem (load_state w) ''trigger_history'' = Inr (VList ts)"
    and "history_rows ts = Inr rows"
  shows "send_completion_email w = (Inr (), send_email PERSONAL_EMAIL (CompletionSummary rows) w)"
  using assms by (simp add: send_completion_email_def)

text \<open>What the manual script does when it runs to its end.\<close>

lemma tn_main_typed:
  assumes "py_getitem (tn_load_state w) ''trigger_count'' = Inr c" and "py_add1 c = Inr tn"
    and "py_getitem (tn_load_state w) ''trigger_history'' = Inr (VList h)"
  shows "tn_main e w =
           tn_save_state (trigger_write_ok e)
             (fired_state e (tn_load_state w) tn h (manual_record e tn))
             (send_email PERSONAL_EMAIL (ManualPersonalAlert tn (get_btc_price e))
               (send_email BROKER_EMAIL (ManualBrokerOrder tn (get_btc_price e)) w))"
  using assms
  by (simp add: tn_main_def Let_def fired_state_def manual_record_def)

lemma tn_main_success:
  assumes "fst (tn_main e w) = Inr ()"
  shows "\<exists>c tn h. py_getitem (tn_load_state w) ''trigger_count'' = Inr c \<and> py_add1 c = Inr tn
           \<and> py_getitem (tn_load_state w) ''trigger_history'' = Inr (VList h)
           \<and> trigger_write_ok e"
proof (cases "py_getitem (tn_load_state w) ''trigger_count''")
  case (Inl err)
  then show ?thesis using assms by (simp add: tn_main_def)
next
  case (Inr c)
  note c = this
  show ?thesis
  proof (cases "py_add1 c")
    case (Inl err)
    then show ?thesis using assms c by (simp add: tn_main_def)
  next
    case (Inr tn)
    note tn = this
    show ?thesis
    proof (cases "py_getitem (tn_load_state w) ''trigger_history''")
      case (Inl err)
      then show ?thesis using assms c tn by (simp add: tn_main_def Let_def)
    next
      case (Inr hv)
      note hv = this
      show ?thesis
      proof (cases hv)
        case (VList h)
        then have "tn_main e w =
           tn_save_state (trigger_write_ok e)
             (fired_state e (tn_load_state w) tn h (manual_record e tn))
             (send_email PERSONAL_EMAIL (ManualPersonalAlert tn (get_btc_price e))
               (send_email BROKER_EMAIL (ManualBrokerOrder tn (get_btc_price e)) w))"
          using tn_main_typed [OF c tn] hv by simp
        then have "trigger_write_ok e"
          using assms by (simp add: tn_save_state_def split: if_splits)
        then show ?thesis using c tn hv VList by simp
      qed (use assms c tn hv in \<open>simp_all add: tn_main_def Let_def\<close>)
    qed
  qed
qed

lemma is_manual_record_manual [simp]: "is_manual_record (manual_record e tn)"
  by (simp add: manual_record_def)

section \<open>Repeated runs of the manual script\<close>

lemma tn_load_state_Object: "state_file w = Object st \<Longrightarrow> tn_load_state w = st"
  by (simp add: tn_load_state_def)

lemma manual_runs_state:
  assumes ok: "trigger_write_ok e"
  shows "\<exists>h. py_getitem (tn_load_state (manual_runs e k world_fresh)) ''trigger_count''
             = Inr (VInt (int k))
           \<and> py_getitem (tn_load_state (manual_runs e k world_fresh)) ''trigger_history''
             = Inr (VList h)
           \<and> length h = k
           \<and> list_all (\<lambda>r. py_subscript r ''date'' = Inr (VStr (today e))) h
           \<and> (0 < k \<longrightarrow>
                py_getitem (tn_load_state (manual_runs e k world_fresh)) ''last_trigger_date''
                  = Inr (VStr (today e))
              \<and> (\<exists>st. state_file (manual_runs e k world_fresh) = Object st))"
proof (induction k)
  case 0
  show ?case
    by (simp add: world_fresh_def tn_load_state_def default_state_def py_getitem_def)
next
  case (Suc k)
  let ?w = "manual_runs e k world_fresh"
  obtain h where c: "py_getitem (tn_load_state ?w) ''trigger_count'' = Inr (VInt (int k))"
    and h: "py_getitem (tn_load_state ?w) ''trigger_history'' = Inr (VList h)"
    and n: "length h = k"
    and d: "list_all (\<lambda>r. py_subscript r ''date'' = Inr (VStr (today e))) h"
    using Suc.IH by blast
  have a: "py_add1 (VInt (int k)) = Inr (VInt (int (Suc k)))"
    by simp
  let ?st = "fired_state e (tn_load_state ?w) (VInt (int (Suc k))) h
               (manual_record e (VInt (int (Suc k))))"
  have f: "state_file (manual_runs e (Suc k) world_fresh) = Object ?st"
    using tn_main_typed [OF c a h, of e] ok by (simp add: tn_save_state_def)
  have l: "tn_load_state (manual_runs e (Suc k) world_fresh) = ?st"
    using f by (rule tn_load_state_Object)
  have r: "py_subscript (manual_record e (VInt (int (Suc k)))) ''date'' = Inr (VStr (today e))"
    by (simp add: manual_record_def py_getitem_def)
  show ?case
    unfolding l using f n d r by (simp add: getitem_fired del: manual_runs.simps)
qed

section \<open>Counting the triggers of main.py\<close>

lemma trigger_record_not_manual: "is_trigger_record r \<Longrightarrow> \<not> is_manual_record r"
  by (cases r) auto

lemma trigger_records_rows:
  assumes "list_all is_trigger_record h"
  shows "\<exists>rows. history_rows h = Inr rows"
proof -
  have s: "list_all is_script_record h"
    using assms by (induction h) (simp_all add: is_script_record_def)
  have "\<not> (\<exists>t\<in>set h. is_manual_record t)"
    using assms trigger_record_not_manual by (auto simp add: list_all_iff)
  then show ?thesis
    using history_rows_script(2) [OF s] by blast
qed

lemma new_record_is_trigger_record [simp]: "is_trigger_record (new_record e tn p y d t)"
  by (simp add: new_record_def)

lemma new_record_number [simp]: "py_subscript (new_record e tn p y d t) ''number'' = Inr tn"
  by (simp add: new_record_def py_getitem_def)

lemma well_formed_file:
  assumes "well_formed N w" and "state_file w' = state_file w"
    and "list_all saved_consistent (events w')"
  shows "well_formed N w'"
  using assms load_state_cong [of w' w] by (simp add: well_formed_def)

lemma well_formed_send: "well_formed N w \<Longrightarrow> well_formed N (send_email to_email msg w)"
  by (rule well_formed_file) (simp_all add: send_email_def well_formed_def)

lemma well_formed_consistent:
  assumes "well_formed N w"
  shows "consistent (load_state w)"
  using assms by (auto simp add: well_formed_def consistent_def)

lemma consistent_refreshed: "consistent st \<Longrightarrow> consistent (refreshed_state y yd st)"
  by (simp add: consistent_def getitem_refreshed)

lemma well_formed_refresh:
  assumes "well_formed N w"
  shows "well_formed N (save_state ok (refreshed_state y yd (load_state w)) w)"
proof (cases ok)
  case False
  show ?thesis
    by (rule well_formed_file [OF assms]) (use assms False in \<open>simp_all add: save_state_def well_formed_def\<close>)
next
  case True
  let ?st = "refreshed_state y yd (load_state w)"
  let ?w = "save_state ok ?st w"
  have f: "state_file ?w = Object ?st"
    using True by (simp add: save_state_def)
  have g: "py_getitem (load_state ?w) k = py_getitem (load_state w) k"
    if k: "k \<noteq> ''yesterday_close''" "k \<noteq> ''yesterday_close_date''"
      and v: "py_getitem (load_state w) k = Inr v" for k v
  proof -
    have "py_getitem ?st k = Inr v"
      using v k by (simp add: getitem_refreshed)
    from getitem_load_Object_present [OF f this] v show ?thesis by simp
  qed
  obtain h where h: "py_getitem (load_state w) ''trigger_count'' = Inr (VInt (int N))"
    "py_getitem (load_state w) ''trigger_history'' = Inr (VList h)"
    using assms by (auto simp add: well_formed_def)
  have g1: "py_getitem (load_state ?w) ''trigger_count'' = py_getitem (load_state w) ''trigger_count''"
    using g [OF _ _ h(1)] by simp
  have g2: "py_getitem (load_state ?w) ''trigger_history'' = py_getitem (load_state w) ''trigger_history''"
    using g [OF _ _ h(2)] by simp
  have ev: "list_all saved_consistent (events ?w)"
    using assms True consistent_refreshed [OF well_formed_consistent [OF assms]]
    by (simp add: save_state_def well_formed_def)
  show ?thesis
    using assms ev g1 g2 by (simp add: well_formed_def)
qed

lemma well_formed_completion:
  assumes "well_formed N w"
  shows "fst (send_completion_email w) = Inr ()"
    and "well_formed N (snd (send_completion_email w))"
proof -
  obtain h where h: "py_getitem (load_state w) ''trigger_history'' = Inr (VList h)"
    "list_all is_trigger_record h"
    using assms by (auto simp add: well_formed_def)
  obtain rows where "history_rows h = Inr rows"
    using trigger_records_rows [OF h(2)] by blast
  then have e: "send_completion_email w =
      (Inr (), send_email PERSONAL_EMAIL (CompletionSummary rows) w)"
    using completion_succeeds h(1) by blast
  show "fst (send_completion_email w) = Inr ()"
    using e by simp
  show "well_formed N (snd (send_completion_email w))"
    using e well_formed_send [OF assms] by simp
qed

lemma upt_Suc_snoc: "[1..<Suc (Suc N)] = [1..<Suc N] @ [Suc N]"
  by simp

lemma well_formed_execute:
  assumes wf: "well_formed N w"
    and c: "py_getitem st ''trigger_count'' = py_getitem (load_state w) ''trigger_count''"
    and h: "py_getitem st ''trigger_history'' = py_getitem (load_state w) ''trigger_history''"
  shows "fst (execute_trigger e st p y d t w) = Inr ()"
    and "well_formed (if trigger_write_ok e then Suc N else N) (snd (execute_trigger e st p y d t w))"
proof -
  obtain hs where hs: "py_getitem (load_state w) ''trigger_count'' = Inr (VInt (int N))"
    "py_getitem (load_state w) ''trigger_history'' = Inr (VList hs)"
    "length hs = N"
    "map (\<lambda>r. py_subscript r ''number'') hs = map (\<lambda>i. Inr (VInt (int i))) [1..<Suc N]"
    "list_all is_trigger_record hs"
    and ev: "list_all saved_consistent (events w)"
    using wf by (auto simp add: well_formed_def)
  let ?tn = "VInt (int N + 1)"
  let ?r = "new_record e ?tn p y d t"
  let ?st3 = "fired_state e st ?tn hs ?r"
  let ?w1 = "save_state (trigger_write_ok e) ?st3 w"
  let ?w3 = "send_email PERSONAL_EMAIL (PersonalAlert ?tn p y d t)
               (send_email BROKER_EMAIL (BrokerOrder ?tn p y d t) ?w1)"
  have c': "py_getitem st ''trigger_count'' = Inr (VInt (int N))"
    and h': "py_getitem st ''trigger_history'' = Inr (VList hs)"
    using c h hs by simp_all
  have ex: "execute_trigger e st p y d t w =
      (if MAX_TRIGGERS \<le> int N + 1 then send_completion_email ?w3 else (Inr (), ?w3))"
    using c' h' by (simp add: execute_trigger_def Let_def fired_state_def new_record_def)
  have cons3: "consistent ?st3"
    using hs(3) by (simp add: consistent_def getitem_fired)
  have wf1: "well_formed (if trigger_write_ok e then Suc N else N) ?w1"
  proof (cases "trigger_write_ok e")
    case False
    show ?thesis
      using False
      by (auto intro!: well_formed_file [OF wf] simp add: save_state_def ev)
  next
    case True
    have f: "state_file ?w1 = Object ?st3"
      using True by (simp add: save_state_def)
    have g1: "py_getitem (load_state ?w1) ''trigger_count'' = Inr (VInt (int (Suc N)))"
      using getitem_load_Object_present [OF f getitem_fired(3)] by (simp add: add.commute)
    have g2: "py_getitem (load_state ?w1) ''trigger_history'' = Inr (VList (hs @ [?r]))"
      using getitem_load_Object_present [OF f getitem_fired(1)] .
    have n: "map (\<lambda>r. py_subscript r ''number'') (hs @ [?r]) =
               map (\<lambda>i. Inr (VInt (int i))) [1..<Suc (Suc N)]"
      using hs(4) by (simp add: add.commute)
    have ev1: "list_all saved_consistent (events ?w1)"
      using ev cons3 True by (simp add: save_state_def)
    show ?thesis
      using True g1 g2 n hs(3,5) ev1 unfolding well_formed_def
      by (intro conjI exI [of _ "hs @ [?r]"]) simp_all
  qed
  have wf3: "well_formed (if trigger_write_ok e then Suc N else N) ?w3"
    using wf1 by (intro well_formed_send)
  show "fst (execute_trigger e st p y d t w) = Inr ()"
    using ex well_formed_completion(1) [OF wf3]
    by (cases "MAX_TRIGGERS \<le> int N + 1") simp_all
  show "well_formed (if trigger_write_ok e then Suc N else N) (snd (execute_trigger e st p y d t w))"
    using ex well_formed_completion(2) [OF wf3] wf3
    by (cases "MAX_TRIGGERS \<le> int N + 1") simp_all
qed

lemma load_state_last: "\<exists>v. py_getitem (load_state w) ''last_trigger_date'' = Inr v"
  using load_state_has_key [of "''last_trigger_date''" VNone w]
  by (auto simp add: default_state_def py_getitem_def)

lemma intraday_no_price:
  assumes c: "py_getitem (load_state w) ''trigger_count'' = Inr (VInt n)" "n < MAX_TRIGGERS"
    and l: "py_getitem (load_state w) ''last_trigger_date'' = Inr ld" "ld \<noteq> VStr (today e)"
    and dc: "daily_close e = Some (y, yd)" and bp: "btc_price e = None"
  shows "\<exists>w'. (w' = w \<or> w' = save_state (refresh_write_ok e) (refreshed_state y yd (load_state w)) w)
           \<and> check_and_trigger e w = (Inr MissingPrice, w')"
proof -
  obtain ycd where ycd: "py_getitem (load_state w) ''yesterday_close_date'' = Inr ycd"
    using load_state_ycd by blast
  show ?thesis
    using c l dc bp ycd unfolding refreshed_state_def
    by (cases "ycd = VStr yd") (simp_all add: check_and_trigger_def Let_def)
qed

lemma well_formed_check_and_trigger:
  assumes wf: "well_formed N w"
  shows "well_formed
           (N + (if fst (check_and_trigger e w) = Inr Fired \<and> trigger_write_ok e then 1 else 0))
           (snd (check_and_trigger e w))"
proof -
  have c: "py_getitem (load_state w) ''trigger_count'' = Inr (VInt (int N))"
    using wf by (auto simp add: well_formed_def)
  obtain ld where ld: "py_getitem (load_state w) ''last_trigger_date'' = Inr ld"
    using load_state_last by blast
  consider (complete) "MAX_TRIGGERS \<le> int N"
    | (today) "int N < MAX_TRIGGERS" "ld = VStr (today e)"
    | (noref) "int N < MAX_TRIGGERS" "ld \<noteq> VStr (today e)" "daily_close e = None"
    | (noprice) y yd where "int N < MAX_TRIGGERS" "ld \<noteq> VStr (today e)"
        "daily_close e = Some (y, yd)" "btc_price e = None"
    | (price) y yd p where "int N < MAX_TRIGGERS" "ld \<noteq> VStr (today e)"
        "daily_close e = Some (y, yd)" "btc_price e = Some p"
    by (cases "daily_close e"; cases "btc_price e") force+
  then show ?thesis
  proof cases
    case complete
    then have "check_and_trigger e w = (Inr Complete, w)"
      using c by (simp add: check_and_trigger_def)
    then show ?thesis using wf by simp
  next
    case today
    then have "check_and_trigger e w = (Inr AlreadyFiredToday, w)"
      using c ld by (simp add: check_and_trigger_def)
    then show ?thesis using wf by simp
  next
    case noref
    then have "check_and_trigger e w = (Inr MissingReference, w)"
      using c ld by (simp add: check_and_trigger_def)
    then show ?thesis using wf by simp
  next
    case noprice
    obtain w' where w': "w' = w \<or>
        w' = save_state (refresh_write_ok e) (refreshed_state y yd (load_state w)) w"
      "check_and_trigger e w = (Inr MissingPrice, w')"
      using intraday_no_price [OF c noprice(1) ld noprice(2,3,4)] by blast
    have "well_formed N w'"
      using w'(1) wf well_formed_refresh [OF wf] by auto
    then show ?thesis using w'(2) by simp
  next
    case price
    obtain st' w' where a: "st' = load_state w \<or> st' = refreshed_state y yd (load_state w)"
      "w' = w \<or> w' = save_state (refresh_write_ok e) (refreshed_state y yd (load_state w)) w"
      "check_and_trigger e w =
             (case drop_percent p y of
                Inl err \<Rightarrow> (Inl err, w')
              | Inr drop_pct \<Rightarrow>
                  if drop_pct \<le> INTRADAY_DIP_THRESHOLD then
                    (case execute_trigger e st' p y drop_pct (type_text e IntradayDip drop_pct) w' of
                       (Inl err, w'') \<Rightarrow> (Inl err, w'')
                     | (Inr u, w'') \<Rightarrow> (Inr Fired, w''))
                  else (Inr NotTriggered, w'))"
      using intraday_after_refresh [OF c price(1) ld price(2,3,4)] by blast
    have wf': "well_formed N w'"
      using a(2) wf well_formed_refresh [OF wf] by auto
    obtain h where h: "py_getitem (load_state w) ''trigger_history'' = Inr (VList h)"
      using wf by (auto simp add: well_formed_def)
    have c': "py_getitem (load_state w') ''trigger_count'' = Inr (VInt (int N))"
      using wf' by (auto simp add: well_formed_def)
    have hh: "py_getitem (load_state w') ''trigger_history'' = py_getitem (load_state w) ''trigger_history''"
    proof -
      have "history_of w' = history_of w"
        using a(2)
      proof
        assume "w' = w" then show ?thesis by simp
      next
        assume s: "w' = save_state (refresh_write_ok e) (refreshed_state y yd (load_state w)) w"
        show ?thesis
        proof (cases "refresh_write_ok e")
          case True
          then have "state_file w' = Object (refreshed_state y yd (load_state w))"
            using s by (simp add: save_state_def)
          then show ?thesis by (rule history_of_refreshed)
        next
          case False
          then have "state_file w' = state_file w"
            using s by (simp add: save_state_def)
          then show ?thesis by (rule history_of_cong)
        qed
      qed
      moreover obtain h' where "py_getitem (load_state w') ''trigger_history'' = Inr (VList h')"
        using wf' by (auto simp add: well_formed_def)
      ultimately show ?thesis using h by (simp add: history_of_def)
    qed
    have sc: "py_getitem st' ''trigger_count'' = py_getitem (load_state w') ''trigger_count''"
      using a(1) c c' by (auto simp add: getitem_refreshed)
    have sh: "py_getitem st' ''trigger_history'' = py_getitem (load_state w') ''trigger_history''"
      using a(1) hh by (auto simp add: getitem_refreshed)
    show ?thesis
    proof (cases "y = 0")
      case True
      then have "check_and_trigger e w = (Inl ZeroDivisionError, w')"
        using a(3) by (simp add: drop_percent_def)
      then show ?thesis using wf' by simp
    next
      case False
      note y = this
      let ?d = "(p - y) / y * 100"
      show ?thesis
      proof (cases "?d \<le> INTRADAY_DIP_THRESHOLD")
        case False
        then have "check_and_trigger e w = (Inr NotTriggered, w')"
          using a(3) y by (simp add: drop_percent_def)
        then show ?thesis using wf' by simp
      next
        case True
        let ?x = "execute_trigger e st' p y ?d (type_text e IntradayDip ?d) w'"
        have x: "fst ?x = Inr ()"
          "well_formed (if trigger_write_ok e then Suc N else N) (snd ?x)"
          using well_formed_execute [OF wf' sc sh] by simp_all
        have "check_and_trigger e w = (Inr Fired, snd ?x)"
          using a(3) y True x(1) by (simp add: drop_percent_def split: prod.splits sum.splits)
        then show ?thesis using x(2) by (cases "trigger_write_ok e") simp_all
      qed
    qed
  qed
qed

lemma well_formed_check_daily_close:
  assumes wf: "well_formed N w"
  shows "well_formed
           (N + (if fst (check_daily_close e w) = Inr Fired \<and> trigger_write_ok e then 1 else 0))
           (snd (check_daily_close e w))"
proof -
  have c: "py_getitem (load_state w) ''trigger_count'' = Inr (VInt (int N))"
    using wf by (auto simp add: well_formed_def)
  obtain ld where ld: "py_getitem (load_state w) ''last_trigger_date'' = Inr ld"
    using load_state_last by blast
  have quiet_or_fire:
    "(\<exists>out. check_daily_close e w = (out, w) \<and> out \<noteq> Inr Fired)
     \<or> (\<exists>p y d. check_daily_close e w =
           (case execute_trigger e (load_state w) p y d (type_text e CloseToClose d) w of
              (Inl err, w') \<Rightarrow> (Inl err, w')
            | (Inr u, w') \<Rightarrow> (Inr Fired, w')))"
  proof (cases "MAX_TRIGGERS \<le> int N \<or> ld = VStr (today e) \<or> today_close e = None
                \<or> daily_close e = None")
    case True
    then have "\<exists>out. check_daily_close e w = (out, w) \<and> out \<noteq> Inr Fired"
      using c ld
      by (auto simp add: check_daily_close_def Let_def split: option.splits)
    then show ?thesis by blast
  next
    case False
    then obtain p y yd where g: "\<not> MAX_TRIGGERS \<le> int N" "ld \<noteq> VStr (today e)"
      "today_close e = Some p" "daily_close e = Some (y, yd)"
      by auto
    have eq: "check_daily_close e w =
        (case drop_percent p y of
           Inl err \<Rightarrow> (Inl err, w)
         | Inr drop_pct \<Rightarrow>
             if drop_pct \<le> CLOSE_TO_CLOSE_THRESHOLD then
               (case execute_trigger e (load_state w) p y drop_pct
                       (type_text e CloseToClose drop_pct) w of
                  (Inl err, w') \<Rightarrow> (Inl err, w')
                | (Inr u, w') \<Rightarrow> (Inr Fired, w'))
             else (Inr NotTriggered, w))"
      using c ld g by (simp add: check_daily_close_def Let_def)
    show ?thesis
    proof (cases "y = 0")
      case True
      then have "check_daily_close e w = (Inl ZeroDivisionError, w)"
        using eq by (simp add: drop_percent_def)
      then show ?thesis by simp
    next
      case False
      note y = this
      show ?thesis
      proof (cases "(p - y) / y * 100 \<le> CLOSE_TO_CLOSE_THRESHOLD")
        case False
        then have "check_daily_close e w = (Inr NotTriggered, w)"
          using eq y by (simp add: drop_percent_def)
        then show ?thesis by simp
      next
        case True
        then have "check_daily_close e w =
           (case execute_trigger e (load_state w) p y ((p - y) / y * 100)
                   (type_text e CloseToClose ((p - y) / y * 100)) w of
              (Inl err, w') \<Rightarrow> (Inl err, w')
            | (Inr u, w') \<Rightarrow> (Inr Fired, w'))"
          using eq y by (simp add: drop_percent_def)
        then show ?thesis by blast
      qed
    qed
  qed
  then consider (quiet) out where "check_daily_close e w = (out, w)" "out \<noteq> Inr Fired"
    | (fire) p y d where
        "check_daily_close e w =
           (case execute_trigger e (load_state w) p y d (type_text e CloseToClose d) w of
              (Inl err, w') \<Rightarrow> (Inl err, w')
            | (Inr u, w') \<Rightarrow> (Inr Fired, w'))"
    by blast
  then show ?thesis
  proof cases
    case quiet
    then show ?thesis using wf by simp
  next
    case fire
    let ?x = "execute_trigger e (load_state w) p y d (type_text e CloseToClose d) w"
    have x: "fst ?x = Inr ()"
      "well_formed (if trigger_write_ok e then Suc N else N) (snd ?x)"
      using well_formed_execute [OF wf refl refl] by simp_all
    have "check_daily_close e w = (Inr Fired, snd ?x)"
      using fire x(1) by (simp split: prod.splits sum.splits)
    then show ?thesis using x(2) by (cases "trigger_write_ok e") simp_all
  qed
qed

lemma well_formed_run_cycle:
  assumes "well_formed N w"
  shows "well_formed
           (N + (if fst (run_cycle c w) = Inr Fired \<and> trigger_write_ok (cycle_env c) then 1 else 0))
           (snd (run_cycle c w))"
  using assms
  by (cases c) (simp_all add: well_formed_check_and_trigger well_formed_check_daily_close)

lemma well_formed_run_cycles:
  assumes "well_formed N w"
  shows "well_formed (N + successes cs w) (run_cycles cs w)"
  using assms
proof (induction cs arbitrary: N w)
  case Nil
  then show ?case by simp
next
  case (Cons c cs)
  let ?k = "if fst (run_cycle c w) = Inr Fired \<and> trigger_write_ok (cycle_env c) then 1 else 0 :: nat"
  have "well_formed (N + ?k) (snd (run_cycle c w))"
    using well_formed_run_cycle [OF Cons.prems] .
  from Cons.IH [OF this] show ?case
    by (simp add: add.assoc)
qed

lemma well_formed_fresh: "well_formed 0 world_fresh"
  by (simp add: well_formed_def world_fresh_def load_state_def default_state_def py_getitem_def)



lemma fired_implies_open:
  assumes "py_getitem (load_state w) ''trigger_count'' = Inr (VInt n)"
    and "fst (run_cycle c w) = Inr Fired"
  shows "n < MAX_TRIGGERS"
proof (rule ccontr)
  assume "\<not> n < MAX_TRIGGERS"
  then have "fst (run_cycle c w) = Inr Complete"
    using assms(1) by (cases c) (simp_all add: check_and_trigger_def check_daily_close_def)
  then show False using assms(2) by simp
qed

lemma successes_bounded:
  assumes "well_formed N w" and "int N \<le> MAX_TRIGGERS"
  shows "int (N + successes cs w) \<le> MAX_TRIGGERS"
  using assms
proof (induction cs arbitrary: N w)
  case Nil
  then show ?case by simp
next
  case (Cons c cs)
  let ?k = "if fst (run_cycle c w) = Inr Fired \<and> trigger_write_ok (cycle_env c) then 1 else 0 :: nat"
  have c: "py_getitem (load_state w) ''trigger_count'' = Inr (VInt (int N))"
    using Cons.prems(1) by (auto simp add: well_formed_def)
  have b: "int (N + ?k) \<le> MAX_TRIGGERS"
    using Cons.prems(2) fired_implies_open [OF c, of c] by auto
  from Cons.IH [OF well_formed_run_cycle [OF Cons.prems(1)] b]
  show ?case by (simp add: add.assoc)
qed

section \<open>The terminal guard\<close>

text \<open>
  Claim C3. Whenever the loaded state's \<open>trigger_count\<close> compares \<open>>= MAX_TRIGGERS\<close>,
  the intraday check and the close-to-close check both return on the path
  "complete" and leave the world as it was: nothing is written and nothing is sent.
  No hypothesis mentions the date, the fetched prices or the drop, so the guard is
  decided before the same-day check, the missing-reference check and the threshold
  comparison, whatever they would have said.
\<close>

theorem terminal_state_blocks:
  assumes "py_getitem (load_state w) ''trigger_count'' = Inr c"
    and "py_ge c MAX_TRIGGERS = Inr True"
  shows "check_and_trigger e w = (Inr Complete, w)
         \<and> check_daily_close e w = (Inr Complete, w)"
  using assms by (simp add: check_and_trigger_def check_daily_close_def)

theorem terminal_state_blocks_witness:
  "py_getitem (load_state world_complete) ''trigger_count'' = Inr (VInt 15)
   \<and> py_ge (VInt 15) MAX_TRIGGERS = Inr True
   \<and> check_and_trigger env_drop10 world_complete = (Inr Complete, world_complete)
   \<and> check_daily_close env_drop10 world_complete = (Inr Complete, world_complete)"
proof -
  have c: "py_getitem (load_state world_complete) ''trigger_count'' = Inr (VInt 15)"
    by (simp add: world_complete_def load_state_def default_state_def py_getitem_def)
  have g: "py_ge (VInt 15) MAX_TRIGGERS = Inr True"
    by (simp add: MAX_TRIGGERS_def)
  show ?thesis
    using c g terminal_state_blocks [OF c g, of env_drop10] by simp
qed

section \<open>The same-day guard\<close>




section \<open>A failed write of the state\<close>




section \<open>The order of the save and the sends\<close>




section \<open>The drop and the inclusive threshold\<close>



section \<open>Prices that are not valid prices\<close>




section \<open>Manual records and the completion summary\<close>

text \<open>
  Claim C10. When the manual trigger script runs to its end, the record it has
  appended to the persisted history has the keys \<open>number\<close>, \<open>date\<close>, \<open>time\<close>,
  \<open>price\<close> and \<open>type\<close> and no others: no \<open>drop_pct\<close>, no \<open>yesterday_close\<close>. For
  every persisted state whose history contains such a record,
  \<open>send_completion_email\<close> raises instead of sending the summary, and the world stays
  as it was. When every record of the history was written by one of the two programs,
  the exception is the \<open>KeyError\<close> for \<open>drop_pct\<close>, raised at the first manual record.
\<close>

theorem manual_records_break_completion:
  "(fst (tn_main e w) = Inr () \<longrightarrow>
      (\<exists>h d. history_of (snd (tn_main e w)) = h @ [VDict d]
            \<and> map fst d = [''number'', ''date'', ''time'', ''price'', ''type'']
            \<and> is_manual_record (VDict d)))
   \<and> (py_getitem (load_state w) ''trigger_history'' = Inr (VList ts)
        \<and> t \<in> set ts \<and> is_manual_record t \<longrightarrow>
      (\<exists>err. send_completion_email w = (Inl err, w)))
   \<and> (py_getitem (load_state w) ''trigger_history'' = Inr (VList ts)
        \<and> t \<in> set ts \<and> is_manual_record t \<and> list_all is_script_record ts \<longrightarrow>
      send_completion_email w = (Inl (KeyError ''drop_pct''), w))"
proof (intro conjI impI)
  assume ok: "fst (tn_main e w) = Inr ()"
  then obtain c tn h where a: "py_getitem (tn_load_state w) ''trigger_count'' = Inr c"
    "py_add1 c = Inr tn" "py_getitem (tn_load_state w) ''trigger_history'' = Inr (VList h)"
    "trigger_write_ok e"
    using tn_main_success by blast
  have "state_file (snd (tn_main e w)) =
          Object (fired_state e (tn_load_state w) tn h (manual_record e tn))"
    using tn_main_typed [OF a(1-3), of e] a(4) by (simp add: tn_save_state_def)
  from history_of_Object [OF this getitem_fired(1)]
  have "history_of (snd (tn_main e w)) = h @ [manual_record e tn]"
    by simp
  moreover obtain d where "manual_record e tn = VDict d"
    "map fst d = [''number'', ''date'', ''time'', ''price'', ''type'']"
    by (simp add: manual_record_def)
  moreover have "is_manual_record (manual_record e tn)"
    by simp
  ultimately show "\<exists>h d. history_of (snd (tn_main e w)) = h @ [VDict d]
            \<and> map fst d = [''number'', ''date'', ''time'', ''price'', ''type'']
            \<and> is_manual_record (VDict d)"
    by metis
next
  assume a: "py_getitem (load_state w) ''trigger_history'' = Inr (VList ts)
        \<and> t \<in> set ts \<and> is_manual_record t"
  then have "\<exists>err. history_row t = Inl err"
    using history_row_manual by blast
  then obtain err where "history_rows ts = Inl err"
    using history_rows_fail a by blast
  then show "\<exists>err. send_completion_email w = (Inl err, w)"
    using completion_fails a by blast
next
  assume a: "py_getitem (load_state w) ''trigger_history'' = Inr (VList ts)
        \<and> t \<in> set ts \<and> is_manual_record t \<and> list_all is_script_record ts"
  then have "history_rows ts = Inl (KeyError ''drop_pct'')"
    using history_rows_script(1) [of ts] by blast
  then show "send_completion_email w = (Inl (KeyError ''drop_pct''), w)"
    using completion_fails a by blast
qed

theorem manual_records_break_completion_witness:
  "fst (tn_main env_drop10 world_fresh) = Inr ()
   \<and> (\<exists>h d. history_of (snd (tn_main env_drop10 world_fresh)) = h @ [VDict d]
            \<and> map fst d = [''number'', ''date'', ''time'', ''price'', ''type'']
            \<and> is_manual_record (VDict d))
   \<and> py_getitem (load_state (snd (tn_main env_drop10 world_fresh))) ''trigger_history''
       = Inr (VList [manual_record env_drop10 (VInt 1)])
   \<and> manual_record env_drop10 (VInt 1) \<in> set [manual_record env_drop10 (VInt 1)]
   \<and> is_manual_record (manual_record env_drop10 (VInt 1))
   \<and> list_all is_script_record [manual_record env_drop10 (VInt 1)]
   \<and> send_completion_email (snd (tn_main env_drop10 world_fresh))
       = (Inl (KeyError ''drop_pct''), snd (tn_main env_drop10 world_fresh))"
proof -
  let ?w = "snd (tn_main env_drop10 world_fresh)"
  have ok: "fst (tn_main env_drop10 world_fresh) = Inr ()"
    by (simp add: tn_main_def tn_load_state_def tn_save_state_def world_fresh_def
        env_drop10_def default_state_def py_getitem_def Let_def)
  have h: "py_getitem (load_state ?w) ''trigger_history''
             = Inr (VList [manual_record env_drop10 (VInt 1)])"
    by (simp add: tn_main_def tn_load_state_def tn_save_state_def world_fresh_def
        env_drop10_def default_state_def py_getitem_def Let_def load_state_def
        send_email_def manual_record_def get_btc_price_def update_conv')
  have s: "list_all is_script_record [manual_record env_drop10 (VInt 1)]"
    by (simp add: is_script_record_def)
  show ?thesis
    using ok h s
      manual_records_break_completion [of env_drop10 world_fresh "[]" VNone]
      manual_records_break_completion [of env_drop10 ?w "[manual_record env_drop10 (VInt 1)]"
        "manual_record env_drop10 (VInt 1)"]
    by simp
qed

section \<open>Loading a state file that lacks fields\<close>

text \<open>
  Claim C9 holds for \<open>load_state\<close> of main.py and fails for \<open>load_state\<close> of the manual
  trigger script, which returns the file's object as it is. On a state file of an
  older schema that has the count only, main.py's function fills in the four missing
  fields, while the script's function returns a dictionary without them; the script
  then sends both notifications for trigger 3, raises \<open>KeyError\<close> at
  \<open>state["trigger_history"]\<close> and never writes the state.
\<close>

theorem manual_load_state_skips_merge:
  "tn_load_state world_partial = [(''trigger_count'', VInt 2)]
   \<and> py_getitem (tn_load_state world_partial) ''trigger_history''
       = Inl (KeyError ''trigger_history'')
   \<and> load_state world_partial =
       [(''trigger_count'', VInt 2), (''last_trigger_date'', VNone), (''yesterday_close'', VNone),
        (''yesterday_close_date'', VNone), (''trigger_history'', VList [])]
   \<and> fst (tn_main env_drop10 world_partial) = Inl (KeyError ''trigger_history'')
   \<and> state_file (snd (tn_main env_drop10 world_partial)) = state_file world_partial
   \<and> sent (snd (tn_main env_drop10 world_partial)) =
       [(BROKER_EMAIL, ManualBrokerOrder (VInt 3) 90),
        (PERSONAL_EMAIL, ManualPersonalAlert (VInt 3) 90)]"
  by (simp add: world_partial_def env_drop10_def tn_load_state_def load_state_def
      default_state_def py_getitem_def tn_main_def get_btc_price_def send_email_def sent_def
      Let_def update_conv')

section \<open>The manual script and the guards\<close>

text \<open>
  Claim C2 fails on the manual trigger script, which tests neither guard. Run sixteen
  times on one day on a fresh installation, it leaves a persisted count of 16, above
  \<open>MAX_TRIGGERS\<close>, and sixteen records that all carry that day's date. Its sixteenth
  run starts from a state that is complete and dated today, and still runs to its end.
\<close>

theorem manual_script_ignores_guards:
  "py_getitem (load_state (manual_runs env_drop10 15 world_fresh)) ''trigger_count''
     = Inr (VInt 15)
   \<and> py_getitem (load_state (manual_runs env_drop10 15 world_fresh)) ''last_trigger_date''
     = Inr (VStr (today env_drop10))
   \<and> fst (tn_main env_drop10 (manual_runs env_drop10 15 world_fresh)) = Inr ()
   \<and> py_getitem (load_state (manual_runs env_drop10 16 world_fresh)) ''trigger_count''
     = Inr (VInt 16)
   \<and> MAX_TRIGGERS < 16
   \<and> length (history_of (manual_runs env_drop10 16 world_fresh)) = 16
   \<and> list_all (\<lambda>r. py_subscript r ''date'' = Inr (VStr ''2024-05-01''))
        (history_of (manual_runs env_drop10 16 world_fresh))"
proof -
  have ok: "trigger_write_ok env_drop10" and td: "today env_drop10 = ''2024-05-01''"
    by (simp_all add: env_drop10_def)
  let ?w15 = "manual_runs env_drop10 15 world_fresh"
  let ?w16 = "manual_runs env_drop10 16 world_fresh"
  obtain h15 st15 where a15:
    "py_getitem (tn_load_state ?w15) ''trigger_count'' = Inr (VInt 15)"
    "py_getitem (tn_load_state ?w15) ''trigger_history'' = Inr (VList h15)"
    "py_getitem (tn_load_state ?w15) ''last_trigger_date'' = Inr (VStr (today env_drop10))"
    "state_file ?w15 = Object st15"
    using manual_runs_state [OF ok, of 15] by auto
  obtain h16 st16 where a16:
    "py_getitem (tn_load_state ?w16) ''trigger_count'' = Inr (VInt 16)"
    "py_getitem (tn_load_state ?w16) ''trigger_history'' = Inr (VList h16)"
    "length h16 = 16"
    "list_all (\<lambda>r. py_subscript r ''date'' = Inr (VStr (today env_drop10))) h16"
    "state_file ?w16 = Object st16"
    using manual_runs_state [OF ok, of 16] by auto
  have s15: "tn_load_state ?w15 = st15" and s16: "tn_load_state ?w16 = st16"
    using a15(4) a16(5) by (simp_all add: tn_load_state_Object)
  have c15: "py_getitem (load_state ?w15) ''trigger_count'' = Inr (VInt 15)"
    and l15: "py_getitem (load_state ?w15) ''last_trigger_date'' = Inr (VStr (today env_drop10))"
    using a15 s15 getitem_load_Object_present [OF a15(4)] by simp_all
  have r16: "fst (tn_main env_drop10 ?w15) = Inr ()"
    using tn_main_typed [OF a15(1) _ a15(2), of "VInt 16" env_drop10] ok
    by (simp add: tn_save_state_def)
  have c16: "py_getitem (load_state ?w16) ''trigger_count'' = Inr (VInt 16)"
    using a16 s16 getitem_load_Object_present [OF a16(5)] by simp
  have h16: "history_of ?w16 = h16"
    using a16(2) s16 history_of_Object [OF a16(5)] by simp
  show ?thesis
    using c15 l15 r16 c16 h16 a16(3,4) td by (simp add: MAX_TRIGGERS_def)
qed

section \<open>The count, the history and the sequence numbers\<close>



section \<open>What main.py does where the manual script does not\<close>

text \<open>
  On the scheduled path the count stays within bounds: after any run of cycles of
  main.py from a fresh installation, the persisted \<open>trigger_count\<close> is an integer
  between 0 and \<open>MAX_TRIGGERS\<close>.
\<close>

theorem scheduled_count_bounded:
  "\<exists>n. py_getitem (load_state (run_cycles cs world_fresh)) ''trigger_count'' = Inr (VInt n)
       \<and> 0 \<le> n \<and> n \<le> MAX_TRIGGERS"
proof -
  have b: "int (0 + successes cs world_fresh) \<le> MAX_TRIGGERS"
    by (rule successes_bounded [OF well_formed_fresh]) (simp add: MAX_TRIGGERS_def)
  have "well_formed (0 + successes cs world_fresh) (run_cycles cs world_fresh)"
    by (rule well_formed_run_cycles [OF well_formed_fresh])
  then have "py_getitem (load_state (run_cycles cs world_fresh)) ''trigger_count''
               = Inr (VInt (int (successes cs world_fresh)))"
    by (simp add: well_formed_def)
  then show ?thesis using b by simp
qed

text \<open>
  \<open>load_state\<close> of main.py: with no state file, or one that cannot be parsed, it
  returns the defaults; with a state file it returns every field the file has, as the
  file has it, and the default for every field of the default state that the file
  lacks. Each of the five fields is always present in what it returns.
\<close>

theorem load_state_backfills:
  "(state_file w = NoFile \<or> state_file w = Garbage \<longrightarrow> load_state w = default_state)
   \<and> (state_file w = Object st \<and> map_of st k = Some v \<longrightarrow>
        py_getitem (load_state w) k = Inr v)
   \<and> (state_file w = Object st \<and> map_of st k = None \<longrightarrow>
        py_getitem (load_state w) k = py_getitem default_state k)
   \<and> list_all (\<lambda>k. \<exists>v. py_getitem (load_state w) k = Inr v)
        [''trigger_count'', ''last_trigger_date'', ''yesterday_close'',
         ''yesterday_close_date'', ''trigger_history'']"
proof (intro conjI impI)
  assume "state_file w = NoFile \<or> state_file w = Garbage"
  then show "load_state w = default_state"
    by (auto simp add: load_state_def)
next
  assume "state_file w = Object st \<and> map_of st k = Some v"
  then show "py_getitem (load_state w) k = Inr v"
    using getitem_load_state_Object [of w st k] by simp
next
  assume "state_file w = Object st \<and> map_of st k = None"
  then show "py_getitem (load_state w) k = py_getitem default_state k"
    using getitem_load_state_Object [of w st k] by simp
next
  have "\<exists>v. py_getitem (load_state w) k = Inr v" if "\<exists>v0. map_of default_state k = Some v0" for k
    using that load_state_has_key [of k _ w] by (auto simp add: py_getitem_def)
  then show "list_all (\<lambda>k. \<exists>v. py_getitem (load_state w) k = Inr v)
        [''trigger_count'', ''last_trigger_date'', ''yesterday_close'',
         ''yesterday_close_date'', ''trigger_history'']"
    by (simp add: default_state_def)
qed

theorem load_state_backfills_witness:
  "state_file world_fresh = NoFile
   \<and> load_state world_fresh = default_state
   \<and> state_file world_partial = Object [(''trigger_count'', VInt 2)]
   \<and> map_of [(''trigger_count'', VInt 2)] ''trigger_count'' = Some (VInt 2)
   \<and> py_getitem (load_state world_partial) ''trigger_count'' = Inr (VInt 2)
   \<and> map_of [(''trigger_count'', VInt 2)] ''trigger_history'' = None
   \<and> py_getitem (load_state world_partial) ''trigger_history''
       = py_getitem default_state ''trigger_history''"
proof -
  have a: "state_file world_fresh = NoFile"
    "state_file world_partial = Object [(''trigger_count'', VInt 2)]"
    by (simp_all add: world_fresh_def world_partial_def)
  show ?thesis
    using a
      load_state_backfills [of world_fresh "[]" "[]" VNone]
      load_state_backfills [of world_partial "[(''trigger_count'', VInt 2)]"
        "''trigger_count''" "VInt 2"]
      load_state_backfills [of world_partial "[(''trigger_count'', VInt 2)]"
        "''trigger_history''" VNone]
    by simp
qed

section \<open>The boundary under binary floating point\<close>

lemma binade_eq:
  assumes "2 powi k \<le> \<bar>x\<bar>" and "\<bar>x\<bar> < 2 powi (k + 1)"
  shows "binade x = k"
proof -
  have p: "0 < \<bar>x\<bar>"
    using assms(1) by (smt (verit) zero_less_power_int)
  have a: "(2::real) powr of_int k = 2 powi k"
    by (simp add: powr_real_of_int')
  have b: "(2::real) powr (of_int k + 1) = 2 powi (k + 1)"
    using powr_real_of_int' [of "2::real" "k + 1"] by simp
  show ?thesis
    unfolding binade_def using assms floor_log_eq_powr_iff [of "\<bar>x\<bar>" 2 k] p a b by simp
qed

lemma float_953: "binary64 (953 / 10) = 6706141320131379 / 70368744177664"
proof -
  have "binade (953 / 10) = 6"
    by (rule binade_eq) simp_all
  then show ?thesis
    by (simp add: binary64_def rne_def Let_def)
qed

lemma float_9531: "binary64 (9531 / 100) = 1676711251893289 / 17592186044416"
proof -
  have "binade (9531 / 100) = 6"
    by (rule binade_eq) simp_all
  then show ?thesis
    by (simp add: binary64_def rne_def Let_def)
qed

lemma float_threshold: "binary64 (- 47 / 10) = - 5291729562160333 / 1125899906842624"
proof -
  have "binade (- 47 / 10) = 2"
    by (rule binade_eq) simp_all
  then show ?thesis
    by (simp add: binary64_def rne_def Let_def)
qed

lemma float_drop_953:
  "float_drop (6706141320131379 / 70368744177664) 100 = - 330733097635021 / 70368744177664"
proof -
  have s: "binary64 (6706141320131379 / 70368744177664 - 100)
             = - 330733097635021 / 70368744177664"
  proof -
    have "binade (6706141320131379 / 70368744177664 - 100) = 2"
      by (rule binade_eq) simp_all
    then show ?thesis
      by (simp add: binary64_def rne_def Let_def)
  qed
  have d: "binary64 (- 330733097635021 / 70368744177664 / 100)
             = - 3386706919782615 / 72057594037927936"
  proof -
    have "binade (- 330733097635021 / 70368744177664 / 100) = - 5"
      by (rule binade_eq) simp_all
    then show ?thesis
      by (simp add: binary64_def rne_def Let_def)
  qed
  have m: "binary64 (- 3386706919782615 / 72057594037927936 * 100)
             = - 330733097635021 / 70368744177664"
  proof -
    have "binade (- 3386706919782615 / 72057594037927936 * 100) = 2"
      by (rule binade_eq) simp_all
    then show ?thesis
      by (simp add: binary64_def rne_def Let_def)
  qed
  show ?thesis
    unfolding float_drop_def s d m ..
qed

lemma float_drop_9531:
  "float_drop (1676711251893289 / 17592186044416) 100 = - 82507352548311 / 17592186044416"
proof -
  have s: "binary64 (1676711251893289 / 17592186044416 - 100)
             = - 82507352548311 / 17592186044416"
  proof -
    have "binade (1676711251893289 / 17592186044416 - 100) = 2"
      by (rule binade_eq) simp_all
    then show ?thesis
      by (simp add: binary64_def rne_def Let_def)
  qed
  have d: "binary64 (- 82507352548311 / 17592186044416 / 100)
             = - 6759002320757637 / 144115188075855872"
  proof -
    have "binade (- 82507352548311 / 17592186044416 / 100) = - 5"
      by (rule binade_eq) simp_all
    then show ?thesis
      by (simp add: binary64_def rne_def Let_def)
  qed
  have m: "binary64 (- 6759002320757637 / 144115188075855872 * 100)
             = - 82507352548311 / 17592186044416"
  proof -
    have "binade (- 6759002320757637 / 144115188075855872 * 100) = 2"
      by (rule binade_eq) simp_all
    then show ?thesis
      by (simp add: binary64_def rne_def Let_def)
  qed
  show ?thesis
    unfolding float_drop_def s d m ..
qed

text \<open>
  With the rounding of binary64 at every step, the two boundary cases of the intraday
  check come out as in exact arithmetic. The float nearest 95.3 lies just below 95.3,
  so against a close of 100 Python computes a drop of about -4.700000000000003, which
  is below the float nearest -4.7: the comparison \<open><=\<close> is true and the trigger fires.
  For 95.31 it computes about -4.689999999999998 and the comparison is false. The
  drop at 95.3 is therefore not the float nearest -4.7, but lower by three units in
  the last place.
\<close>

theorem float_boundary_agrees:
  "float_drop (binary64 (953 / 10)) 100 \<le> binary64 (- 47 / 10)
   \<and> float_drop (binary64 (953 / 10)) 100 \<noteq> binary64 (- 47 / 10)
   \<and> \<bar>float_drop (binary64 (953 / 10)) 100 - (- 47 / 10)\<bar> < 1 / 10 ^ 14
   \<and> \<not> float_drop (binary64 (9531 / 100)) 100 \<le> binary64 (- 47 / 10)
   \<and> \<bar>float_drop (binary64 (9531 / 100)) 100 - (- 469 / 100)\<bar> < 1 / 10 ^ 14"
  unfolding float_953 float_9531 float_threshold float_drop_953 float_drop_9531
  by simp

end
